theory Spec2Isabelle
  imports Main
begin

section \<open>Values, errors and panics\<close>

text \<open>
  A Go value of type \<^verbatim>\<open>any\<close> is either the nil interface or an object; \<open>None\<close> is nil.
  The objects themselves (module instances, configuration structs) are opaque: \<open>'o\<close>.
\<close>

type_synonym 'o any = "'o option"

datatype error = Error string

fun message :: "error \<Rightarrow> string" where
  "message (Error s) = s"

text \<open>
  What a \<^verbatim>\<open>panic\<close> carries: the error of \<^verbatim>\<open>panic(err)\<close>, the string of
  \<^verbatim>\<open>panic(fmt.Sprintf(...))\<close>, or the runtime's error for a failed one-result type
  assertion \<^verbatim>\<open>x.(T)\<close>.
\<close>

datatype panic_value = Panic_error error | Panic_string string | Panic_type_assertion

text \<open>The ways a call of a module's own method (\<^verbatim>\<open>Init\<close>, \<^verbatim>\<open>Stop\<close>) comes back.\<close>

datatype call_result = Return_nil | Return_err error | Call_panics panic_value

section \<open>The channel \<^verbatim>\<open>stopped\<close>\<close>

text \<open>
  \<^verbatim>\<open>make(chan struct{}, 1)\<close>: a channel of capacity 1 whose elements carry no data, so
  its state is the number of buffered elements and the lengths of its two wait queues.
\<close>

record chan =
  buffered :: nat
  recvq :: nat
  sendq :: nat

datatype send_result = To_receiver | To_buffer | Sender_parks

datatype recv_result = From_buffer | Receiver_parks

text \<open>
  \<^verbatim>\<open>ch <- v\<close>: a parked receiver takes the value at once; otherwise the value goes to
  the buffer if there is room; otherwise the sender parks.
\<close>

definition chan_send :: "chan \<Rightarrow> send_result \<times> chan" where
  "chan_send ch =
     (if 0 < recvq ch then (To_receiver, ch\<lparr>recvq := recvq ch - 1\<rparr>)
      else if buffered ch < 1 then (To_buffer, ch\<lparr>buffered := buffered ch + 1\<rparr>)
      else (Sender_parks, ch\<lparr>sendq := sendq ch + 1\<rparr>))"

text \<open>
  \<^verbatim>\<open><-ch\<close>: a buffered value is taken, and a parked sender, if any, then puts its
  own value in the freed slot and resumes; with an empty buffer the receiver parks.
\<close>

definition chan_recv :: "chan \<Rightarrow> recv_result \<times> chan" where
  "chan_recv ch =
     (if 0 < buffered ch then
        (if 0 < sendq ch then (From_buffer, ch\<lparr>sendq := sendq ch - 1\<rparr>)
         else (From_buffer, ch\<lparr>buffered := buffered ch - 1\<rparr>))
      else (Receiver_parks, ch\<lparr>recvq := recvq ch + 1\<rparr>))"

section \<open>The container\<close>

text \<open>
  The struct \<^verbatim>\<open>container\<close>. Stop signal channels are named by numbers. The field
  \<^verbatim>\<open>lock\<close> has no state here because no method of the container ever calls
  \<^verbatim>\<open>Lock\<close> or \<^verbatim>\<open>Unlock\<close> on it, and what the \<^verbatim>\<open>logger\<close> prints appears as
  \<open>Log\<close> events.
\<close>

record 'o container =
  bindings :: "string \<rightharpoonup> 'o any"
  moduleConfigs :: "string \<rightharpoonup> 'o any"
  stopSigs :: "nat list"
  stopped :: chan

text \<open>
  The state of the program around the container: the memory of the bound objects
  (\<open>mem\<close>, opaque), and the stop signal channels on which a goroutine spawned by
  \<^verbatim>\<open>Start\<close> is parked in \<^verbatim>\<open><-ch\<close>.
\<close>

record ('o, 'w) world =
  con :: "'o container"
  mem :: 'w
  watching :: "nat list"

definition NewContainer :: "'o container" where
  "NewContainer =
     \<lparr>bindings = Map.empty, moduleConfigs = Map.empty, stopSigs = [],
      stopped = \<lparr>buffered = 0, recvq = 0, sendq = 0\<rparr>\<rparr>"

text \<open>
  A method of a module. \<^verbatim>\<open>Init\<close> receives the container as a \<^verbatim>\<open>Container\<close>, whose
  methods write the bindings only, so a method transforms the bindings and the memory.
\<close>

type_synonym ('o, 'w) meth =
  "(string \<rightharpoonup> 'o any) \<times> 'w \<Rightarrow> call_result \<times> (string \<rightharpoonup> 'o any) \<times> 'w"

text \<open>
  The method sets of the objects, and the configuration provider. \<^verbatim>\<open>Run\<close> is only ever
  called in a goroutine of its own, so only its presence matters to the container.
  \<^verbatim>\<open>gocon.Load\<close> belongs to another repository: it is a parameter.
\<close>

record ('o, 'w) env =
  Init_of :: "'o \<Rightarrow> ('o, 'w) meth option"
  has_Run :: "'o \<Rightarrow> bool"
  Stop_of :: "'o \<Rightarrow> ('o, 'w) meth option"
  is_Configer :: "'o \<Rightarrow> bool"
  Load :: "'o list \<Rightarrow> 'w \<Rightarrow> error option \<times> 'w"

text \<open>\<^verbatim>\<open>m[k]\<close> in its one-result form: the zero value, nil, for a missing key.\<close>

definition index :: "(string \<rightharpoonup> 'o any) \<Rightarrow> string \<Rightarrow> 'o any" where
  "index m k = (case m k of None \<Rightarrow> None | Some v \<Rightarrow> v)"

text \<open>
  Type assertions to the interfaces. nil satisfies none of them. \<^verbatim>\<open>Runnable\<close> embeds
  \<^verbatim>\<open>Initable\<close> (README, Module Interfaces), so it asks for both methods.
\<close>

definition as_Initable :: "('o, 'w) env \<Rightarrow> 'o any \<Rightarrow> ('o, 'w) meth option" where
  "as_Initable E m = (case m of None \<Rightarrow> None | Some x \<Rightarrow> Init_of E x)"

definition is_Runnable :: "('o, 'w) env \<Rightarrow> 'o any \<Rightarrow> bool" where
  "is_Runnable E m = (case m of None \<Rightarrow> False | Some x \<Rightarrow> Init_of E x \<noteq> None \<and> has_Run E x)"

definition as_Stoppable :: "('o, 'w) env \<Rightarrow> 'o any \<Rightarrow> ('o, 'w) meth option" where
  "as_Stoppable E m = (case m of None \<Rightarrow> None | Some x \<Rightarrow> Stop_of E x)"

definition as_Configer :: "('o, 'w) env \<Rightarrow> 'o any \<Rightarrow> 'o option" where
  "as_Configer E m = (case m of None \<Rightarrow> None | Some x \<Rightarrow> if is_Configer E x then Some x else None)"

section \<open>Events and outcomes\<close>

datatype map_id = Bindings | ModuleConfigs

text \<open>
  What a method of the container does, in order. \<open>Lock\<close> and \<open>Unlock\<close> stand for
  \<^verbatim>\<open>c.lock.Lock()\<close> and \<^verbatim>\<open>c.lock.Unlock()\<close>.
\<close>

datatype event =
    Lock
  | Unlock
  | Read map_id string
  | Write map_id string
  | Log string
  | Call_Init string
  | Call_Stop string
  | Call_Load
  | Go_Run string
  | Go_watch nat
  | Send send_result
  | Recv recv_result

text \<open>A call returns, panics, or parks its goroutine on the channel.\<close>

datatype ('a, 's) outcome = Returns 'a 's | Panics panic_value 's | Blocks 's

definition after :: "event list \<Rightarrow> event list \<times> 'r \<Rightarrow> event list \<times> 'r" where
  "after evs r = (evs @ fst r, snd r)"

definition invoke :: "('o, 'w) meth \<Rightarrow> ('o, 'w) world \<Rightarrow> call_result \<times> ('o, 'w) world" where
  "invoke f w =
     (case f (bindings (con w), mem w) of
        (r, b, m) \<Rightarrow> (r, w\<lparr>con := (con w)\<lparr>bindings := b\<rparr>, mem := m\<rparr>))"

section \<open>The registry\<close>

definition Bind :: "string \<Rightarrow> 'o any \<Rightarrow> ('o, 'w) world \<Rightarrow> event list \<times> ('o, 'w) world" where
  "Bind typ obj w =
     ([Write Bindings typ], w\<lparr>con := (con w)\<lparr>bindings := (bindings (con w))(typ \<mapsto> obj)\<rparr>\<rparr>)"

definition Resolve ::
  "string \<Rightarrow> ('o, 'w) world \<Rightarrow> event list \<times> ('o any, ('o, 'w) world) outcome" where
  "Resolve name w =
     (case bindings (con w) name of
        Some c \<Rightarrow> ([Read Bindings name], Returns c w)
      | None \<Rightarrow> ([Read Bindings name], Panics (Panic_string (name @ '' no module'')) w))"

definition GetGlobalConfig ::
  "string \<Rightarrow> ('o, 'w) world \<Rightarrow> event list \<times> ('o any, ('o, 'w) world) outcome" where
  "GetGlobalConfig typ w =
     (case moduleConfigs (con w) typ of
        Some config \<Rightarrow> ([Read ModuleConfigs typ], Returns config w)
      | None \<Rightarrow> ([Read ModuleConfigs typ], Panics (Panic_string (typ @ '' no module'')) w))"

text \<open>
  \<^verbatim>\<open>ModuleConfig\<close>, with the fields the README's examples set.
\<close>

record 'o ModuleConfig =
  Key :: string
  Value :: "'o any"

text \<open>
  The loop of \<^verbatim>\<open>SetModuleGlobalConfig\<close>: each entry is asserted to be a
  \<^verbatim>\<open>gocon.Configer\<close> (a panic if it is not), appended to \<^verbatim>\<open>cfgs\<close> and written to the
  map.
\<close>

fun SetModuleGlobalConfig_loop ::
  "('o, 'w) env \<Rightarrow> 'o ModuleConfig list \<Rightarrow> 'o list \<Rightarrow> ('o, 'w) world \<Rightarrow>
     event list \<times> ('o list, ('o, 'w) world) outcome" where
  "SetModuleGlobalConfig_loop E [] cfgs w = ([], Returns cfgs w)"
| "SetModuleGlobalConfig_loop E (v # rest) cfgs w =
     (case as_Configer E (Value v) of
        None \<Rightarrow> ([], Panics Panic_type_assertion w)
      | Some x \<Rightarrow>
          after [Write ModuleConfigs (Key v)]
            (SetModuleGlobalConfig_loop E rest (cfgs @ [x])
               (w\<lparr>con := (con w)\<lparr>moduleConfigs := (moduleConfigs (con w))(Key v \<mapsto> Value v)\<rparr>\<rparr>)))"

definition SetModuleGlobalConfig ::
  "('o, 'w) env \<Rightarrow> 'o ModuleConfig list \<Rightarrow> ('o, 'w) world \<Rightarrow>
     event list \<times> (error option, ('o, 'w) world) outcome" where
  "SetModuleGlobalConfig E configs w =
     (case SetModuleGlobalConfig_loop E configs [] w of
        (evs, Returns cfgs w') \<Rightarrow>
          (case Load E cfgs (mem w') of
             (r, m) \<Rightarrow> (evs @ [Call_Load], Returns r (w'\<lparr>mem := m\<rparr>)))
      | (evs, Panics p w') \<Rightarrow> (evs, Panics p w')
      | (evs, Blocks w') \<Rightarrow> (evs, Blocks w'))"

section \<open>The lifecycle\<close>

fun Init ::
  "('o, 'w) env \<Rightarrow> string list \<Rightarrow> ('o, 'w) world \<Rightarrow> event list \<times> (unit, ('o, 'w) world) outcome" where
  "Init E [] w = ([], Returns () w)"
| "Init E (name # rest) w =
     (case as_Initable E (index (bindings (con w)) name) of
        None \<Rightarrow> after [Read Bindings name] (Init E rest w)
      | Some f \<Rightarrow>
          (case invoke f w of
             (Return_nil, w') \<Rightarrow> after [Read Bindings name, Call_Init name] (Init E rest w')
           | (Return_err err, w') \<Rightarrow> ([Read Bindings name, Call_Init name], Panics (Panic_error err) w')
           | (Call_panics p, w') \<Rightarrow> ([Read Bindings name, Call_Init name], Panics p w')))"

definition starting :: "string \<Rightarrow> string" where
  "starting m = ''module '' @ m @ '' starting...''"

definition started :: "string \<Rightarrow> string" where
  "started m = ''module '' @ m @ '' started''"

definition not_runnable :: "string \<Rightarrow> string" where
  "not_runnable m = ''container: module ['' @ m @ ''] is not runnable, starting failed''"

definition stopping :: "string \<Rightarrow> string" where
  "stopping m = ''module '' @ m @ '' stopping...''"

definition stopped_line :: "string \<Rightarrow> string" where
  "stopped_line m = ''module '' @ m @ '' stopped''"

definition not_stoppable :: "string \<Rightarrow> string" where
  "not_stoppable m = ''container: module ['' @ m @ ''] is not stoppable, stopping failed''"

text \<open>The second loop of \<^verbatim>\<open>Start\<close>: every module is launched in a goroutine.\<close>

fun Start_loop ::
  "('o, 'w) env \<Rightarrow> string list \<Rightarrow> ('o, 'w) world \<Rightarrow> event list \<times> (unit, ('o, 'w) world) outcome" where
  "Start_loop E [] w = ([], Returns () w)"
| "Start_loop E (m # rest) w =
     (if is_Runnable E (index (bindings (con w)) m)
      then after [Log (starting m), Read Bindings m, Go_Run m, Log (started m)] (Start_loop E rest w)
      else ([Log (starting m), Read Bindings m], Panics (Panic_string (not_runnable m)) w))"

text \<open>
  \<^verbatim>\<open>Start\<close>: a goroutine per stop signal channel, the loop, then the receive from
  \<^verbatim>\<open>stopped\<close>, on which the call parks when the buffer is empty.
\<close>

definition Start ::
  "('o, 'w) env \<Rightarrow> string list \<Rightarrow> ('o, 'w) world \<Rightarrow> event list \<times> (unit, ('o, 'w) world) outcome" where
  "Start E modules w =
     after (map Go_watch (stopSigs (con w)))
       (case Start_loop E modules (w\<lparr>watching := watching w @ stopSigs (con w)\<rparr>) of
          (evs, Returns u w') \<Rightarrow>
            (case chan_recv (stopped (con w')) of
               (From_buffer, ch) \<Rightarrow>
                 (evs @ [Recv From_buffer], Returns () (w'\<lparr>con := (con w')\<lparr>stopped := ch\<rparr>\<rparr>))
             | (Receiver_parks, ch) \<Rightarrow>
                 (evs @ [Recv Receiver_parks], Blocks (w'\<lparr>con := (con w')\<lparr>stopped := ch\<rparr>\<rparr>)))
        | (evs, Panics p w') \<Rightarrow> (evs, Panics p w')
        | (evs, Blocks w') \<Rightarrow> (evs, Blocks w'))"

text \<open>
  \<^verbatim>\<open>c.stopped <- struct{}{}\<close>, as the last statement of \<^verbatim>\<open>Shutdown\<close> and of the
  goroutine of a stop signal.
\<close>

definition send_stopped :: "('o, 'w) world \<Rightarrow> event list \<times> (unit, ('o, 'w) world) outcome" where
  "send_stopped w =
     (case chan_send (stopped (con w)) of
        (Sender_parks, ch) \<Rightarrow> ([Send Sender_parks], Blocks (w\<lparr>con := (con w)\<lparr>stopped := ch\<rparr>\<rparr>))
      | (r, ch) \<Rightarrow> ([Send r], Returns () (w\<lparr>con := (con w)\<lparr>stopped := ch\<rparr>\<rparr>)))"

fun Shutdown_loop ::
  "('o, 'w) env \<Rightarrow> string list \<Rightarrow> ('o, 'w) world \<Rightarrow> event list \<times> (unit, ('o, 'w) world) outcome" where
  "Shutdown_loop E [] w = ([], Returns () w)"
| "Shutdown_loop E (m # rest) w =
     (case as_Stoppable E (index (bindings (con w)) m) of
        None \<Rightarrow> ([Log (stopping m), Read Bindings m], Panics (Panic_string (not_stoppable m)) w)
      | Some f \<Rightarrow>
          (case invoke f w of
             (Return_nil, w') \<Rightarrow>
               after [Log (stopping m), Read Bindings m, Call_Stop m, Log (stopped_line m)]
                 (Shutdown_loop E rest w')
           | (Return_err err, w') \<Rightarrow>
               after [Log (stopping m), Read Bindings m, Call_Stop m, Log (message err),
                      Log (stopped_line m)]
                 (Shutdown_loop E rest w')
           | (Call_panics p, w') \<Rightarrow>
               ([Log (stopping m), Read Bindings m, Call_Stop m], Panics p w')))"

definition Shutdown ::
  "('o, 'w) env \<Rightarrow> string list \<Rightarrow> ('o, 'w) world \<Rightarrow> event list \<times> (unit, ('o, 'w) world) outcome" where
  "Shutdown E modules w =
     (case Shutdown_loop E modules w of
        (evs, Returns u w') \<Rightarrow> after evs (send_stopped w')
      | (evs, Panics p w') \<Rightarrow> (evs, Panics p w')
      | (evs, Blocks w') \<Rightarrow> (evs, Blocks w'))"

text \<open>
  The goroutine that \<^verbatim>\<open>Start\<close> spawned for the stop signal channel \<open>ch\<close> receives from
  it and sends to \<^verbatim>\<open>stopped\<close>. Without such a goroutine parked on \<open>ch\<close> nothing
  happens in the container.
\<close>

definition watcher :: "nat \<Rightarrow> ('o, 'w) world \<Rightarrow> event list \<times> (unit, ('o, 'w) world) outcome" where
  "watcher ch w =
     (if ch \<in> set (watching w) then send_stopped (w\<lparr>watching := remove1 ch (watching w)\<rparr>)
      else ([], Returns () w))"

section \<open>Executions\<close>

text \<open>
  An execution is a sequence of steps, each by a goroutine of its own: a call of
  \<^verbatim>\<open>Start\<close>, a call of \<^verbatim>\<open>Shutdown\<close>, or the goroutine of a stop signal going on. A
  parked goroutine leaves the others running; a panic ends the program.
\<close>

datatype action = Do_Start "string list" | Do_Shutdown "string list" | Do_signal nat

fun step ::
  "('o, 'w) env \<Rightarrow> action \<Rightarrow> ('o, 'w) world \<Rightarrow> event list \<times> (unit, ('o, 'w) world) outcome" where
  "step E (Do_Start ms) w = Start E ms w"
| "step E (Do_Shutdown ms) w = Shutdown E ms w"
| "step E (Do_signal ch) w = watcher ch w"

fun run ::
  "('o, 'w) env \<Rightarrow> action list \<Rightarrow> ('o, 'w) world \<Rightarrow> event list \<times> (unit, ('o, 'w) world) outcome" where
  "run E [] w = ([], Returns () w)"
| "run E (a # as) w =
     (case step E a w of
        (evs, Returns u w') \<Rightarrow> after evs (run E as w')
      | (evs, Blocks w') \<Rightarrow> after evs (run E as w')
      | (evs, Panics p w') \<Rightarrow> (evs, Panics p w'))"

section \<open>Observations on event sequences\<close>

text \<open>The world an outcome leaves behind.\<close>

fun world_of :: "('a, 's) outcome \<Rightarrow> 's" where
  "world_of (Returns a s) = s"
| "world_of (Panics p s) = s"
| "world_of (Blocks s) = s"

fun panicked :: "('a, 's) outcome \<Rightarrow> bool" where
  "panicked (Panics p s) = True"
| "panicked (Returns a s) = False"
| "panicked (Blocks s) = False"

fun is_Go_Run :: "event \<Rightarrow> bool" where
  "is_Go_Run (Go_Run m) = True"
| "is_Go_Run e = False"

fun is_Call_Stop :: "event \<Rightarrow> bool" where
  "is_Call_Stop (Call_Stop m) = True"
| "is_Call_Stop e = False"

fun is_send :: "event \<Rightarrow> bool" where
  "is_send (Send r) = True"
| "is_send e = False"

fun is_recv :: "event \<Rightarrow> bool" where
  "is_recv (Recv r) = True"
| "is_recv e = False"

text \<open>
  A value sent on \<^verbatim>\<open>stopped\<close> reaches a call of \<^verbatim>\<open>Start\<close> either when the sender
  finds the call parked or when the call finds the value in the buffer.
\<close>

fun is_delivery :: "event \<Rightarrow> bool" where
  "is_delivery (Send To_receiver) = True"
| "is_delivery (Recv From_buffer) = True"
| "is_delivery e = False"

text \<open>
  The locking discipline on a sequence of events, from a lock that is held or not: a map
  is read or written only with the lock held, and a module's \<^verbatim>\<open>Init\<close>, \<^verbatim>\<open>Run\<close> or
  \<^verbatim>\<open>Stop\<close> is called only with the lock free.
\<close>

fun guarded :: "bool \<Rightarrow> event list \<Rightarrow> bool" where
  "guarded held [] = True"
| "guarded held (Lock # es) = (\<not> held \<and> guarded True es)"
| "guarded held (Unlock # es) = (held \<and> guarded False es)"
| "guarded held (Read m k # es) = (held \<and> guarded held es)"
| "guarded held (Write m k # es) = (held \<and> guarded held es)"
| "guarded held (Call_Init n # es) = (\<not> held \<and> guarded held es)"
| "guarded held (Call_Stop n # es) = (\<not> held \<and> guarded held es)"
| "guarded held (Go_Run n # es) = (\<not> held \<and> guarded held es)"
| "guarded held (e # es) = guarded held es"

text \<open>The entries of a batch as the loop of \<^verbatim>\<open>SetModuleGlobalConfig\<close> leaves them in the map.\<close>

definition batch :: "'o ModuleConfig list \<Rightarrow> (string \<rightharpoonup> 'o any)" where
  "batch configs = map_of (rev (map (\<lambda>v. (Key v, Value v)) configs))"

section \<open>A small program\<close>

text \<open>
  Objects with different method sets: a full module, one with \<^verbatim>\<open>Run\<close> alone, one whose
  \<^verbatim>\<open>Stop\<close> returns an error, one whose \<^verbatim>\<open>Init\<close> returns an error, one with no method,
  and a configuration struct. The memory counts the successful \<^verbatim>\<open>Init\<close> calls, and the
  configuration provider rejects every batch.
\<close>

datatype demo_obj = Full | Run_only | Stop_fails | Init_fails | Plain | Cfg

definition demo_Init :: "demo_obj \<Rightarrow> (demo_obj, nat) meth option" where
  "demo_Init x =
     (case x of
        Full \<Rightarrow> Some (\<lambda>(b, m). (Return_nil, b(''dep'' \<mapsto> Some Plain), Suc m))
      | Stop_fails \<Rightarrow> Some (\<lambda>(b, m). (Return_nil, b, Suc m))
      | Init_fails \<Rightarrow> Some (\<lambda>(b, m). (Return_err (Error ''init failed''), b, m))
      | _ \<Rightarrow> None)"

definition demo_Stop :: "demo_obj \<Rightarrow> (demo_obj, nat) meth option" where
  "demo_Stop x =
     (case x of
        Full \<Rightarrow> Some (\<lambda>(b, m). (Return_nil, b, m))
      | Stop_fails \<Rightarrow> Some (\<lambda>(b, m). (Return_err (Error ''stop failed''), b, m))
      | _ \<Rightarrow> None)"

definition demo_env :: "(demo_obj, nat) env" where
  "demo_env =
     \<lparr>Init_of = demo_Init,
      has_Run = (\<lambda>x. x = Full \<or> x = Run_only),
      Stop_of = demo_Stop,
      is_Configer = (\<lambda>x. x = Cfg),
      Load = (\<lambda>cfgs m. (Some (Error ''invalid config''), m))\<rparr>"

definition demo_bindings :: "string \<rightharpoonup> demo_obj any" where
  "demo_bindings =
     [''a'' \<mapsto> Some Full, ''b'' \<mapsto> Some Stop_fails, ''c'' \<mapsto> Some Init_fails,
      ''p'' \<mapsto> Some Plain, ''r'' \<mapsto> Some Run_only]"

definition demo_world :: "(demo_obj, nat) world" where
  "demo_world = \<lparr>con = NewContainer\<lparr>bindings := demo_bindings\<rparr>, mem = 0, watching = []\<rparr>"

definition empty_world :: "(demo_obj, nat) world" where
  "empty_world = \<lparr>con = NewContainer, mem = 0, watching = []\<rparr>"

definition initialised_world :: "(demo_obj, nat) world" where
  "initialised_world =
     \<lparr>con = NewContainer\<lparr>bindings := demo_bindings(''dep'' \<mapsto> Some Plain)\<rparr>, mem = 1,
      watching = []\<rparr>"

definition signal_world :: "(demo_obj, nat) world" where
  "signal_world = \<lparr>con = NewContainer\<lparr>stopSigs := [1, 2]\<rparr>, mem = 0, watching = []\<rparr>"

definition db_config :: "demo_obj ModuleConfig" where
  "db_config = \<lparr>Key = ''db'', Value = Some Cfg\<rparr>"

definition api_config :: "demo_obj ModuleConfig" where
  "api_config = \<lparr>Key = ''api'', Value = Some Cfg\<rparr>"

section \<open>Bookkeeping on the channel\<close>

text \<open>
  The states a channel of capacity 1 can be in: a goroutine is parked in a receive only
  while the buffer is empty and no sender waits, and in a send only while the buffer is
  full.
\<close>

definition chan_ok :: "chan \<Rightarrow> bool" where
  "chan_ok ch \<longleftrightarrow>
     buffered ch \<le> 1 \<and> (recvq ch = 0 \<or> (buffered ch = 0 \<and> sendq ch = 0)) \<and>
     (sendq ch = 0 \<or> buffered ch = 1)"

text \<open>
  What a sequence of events does to the channel: every value sent is delivered, buffered
  or still in the hands of a parked sender, and every receive is served or parked.
\<close>

definition conserved :: "chan \<Rightarrow> event list \<Rightarrow> chan \<Rightarrow> bool" where
  "conserved ch evs ch' \<longleftrightarrow>
     (\<not> chan_ok ch \<or> chan_ok ch') \<and>
     length (filter is_send evs) + (buffered ch + sendq ch) =
       length (filter is_delivery evs) + (buffered ch' + sendq ch') \<and>
     length (filter is_recv evs) + recvq ch = length (filter is_delivery evs) + recvq ch'"

text \<open>
  The state in which one call of \<^verbatim>\<open>Start\<close> has been woken by one call of
  \<^verbatim>\<open>Shutdown\<close>.
\<close>

definition delivered_world :: "(demo_obj, nat) world" where
  "delivered_world = world_of (snd (run demo_env [Do_Start [], Do_Shutdown []] empty_world))"

section \<open>Basic facts\<close>

lemma after_pair [simp]: "after evs (a, b) = (evs @ a, b)"
  by (simp add: after_def)

lemma fst_after [simp]: "fst (after evs r) = evs @ fst r"
  by (simp add: after_def)

lemma snd_after [simp]: "snd (after evs r) = snd r"
  by (simp add: after_def)

lemma after_after [simp]: "after xs (after ys r) = after (xs @ ys) r"
  by (simp add: after_def)

lemma after_Nil [simp]: "after [] r = r"
  by (simp add: after_def)

lemma after_eq_pair: "after xs r = (evs, out) \<longleftrightarrow> (\<exists>ys. r = (ys, out) \<and> evs = xs @ ys)"
  by (cases r) auto

lemmas demo_defs =
  demo_env_def demo_world_def empty_world_def NewContainer_def demo_bindings_def demo_Init_def
  demo_Stop_def initialised_world_def signal_world_def delivered_world_def db_config_def
  api_config_def

lemmas model_defs =
  index_def as_Initable_def is_Runnable_def as_Stoppable_def as_Configer_def invoke_def
  starting_def started_def not_runnable_def stopping_def stopped_line_def not_stoppable_def
  chan_send_def chan_recv_def send_stopped_def

section \<open>The registry: binding and resolving\<close>

text \<open>
  Claim C8. Binding a name again replaces the value bound before: after
  \<^verbatim>\<open>Bind(n, a)\<close> and then \<^verbatim>\<open>Bind(n, b)\<close>, \<^verbatim>\<open>Resolve(n)\<close> returns \<open>b\<close>, and the
  state is the one from before the two calls with the binding of \<open>n\<close> alone changed:
  restricted to the other names, the bindings are what they were.
\<close>

theorem Bind_rebind:
  "snd (Resolve n (snd (Bind n b (snd (Bind n a w))))) =
     Returns b (w\<lparr>con := (con w)\<lparr>bindings := (bindings (con w))(n \<mapsto> b)\<rparr>\<rparr>) \<and>
   snd (Bind n b (snd (Bind n a w))) =
     w\<lparr>con := (con w)\<lparr>bindings := (bindings (con w))(n \<mapsto> b)\<rparr>\<rparr> \<and>
   bindings (con (snd (Bind n b (snd (Bind n a w))))) |` (- {n}) = bindings (con w) |` (- {n})"
  by (simp add: Bind_def Resolve_def)

text \<open>
  Claim C5. The claim asks that every read or write of the two maps happens with the
  container's lock held. \<^verbatim>\<open>Bind\<close> writes the bindings and nothing in it, or in any other
  method, takes the lock: its events are the one write, which does not keep the locking
  discipline from a free lock, and no more do the reads of \<^verbatim>\<open>Resolve\<close> and
  \<^verbatim>\<open>GetGlobalConfig\<close>. The README's section on thread safety says that mutex locks
  guard the maps, and the struct declares the lock.
\<close>

theorem Bind_writes_without_lock:
  "fst (Bind typ obj w) = [Write Bindings typ] \<and> \<not> guarded False (fst (Bind typ obj w)) \<and>
   \<not> guarded False (fst (Resolve name w)) \<and> \<not> guarded False (fst (GetGlobalConfig typ w))"
  by (simp add: Bind_def Resolve_def GetGlobalConfig_def split: option.splits)

section \<open>Configuration entries\<close>

lemma batch_Cons: "m ++ batch (v # rest) = m(Key v \<mapsto> Value v) ++ batch rest"
  by (simp add: batch_def)

lemma SetModuleGlobalConfig_loop_all:
  "list_all (\<lambda>v. as_Configer E (Value v) \<noteq> None) configs \<Longrightarrow>
   SetModuleGlobalConfig_loop E configs cfgs w =
     (map (\<lambda>v. Write ModuleConfigs (Key v)) configs,
      Returns (cfgs @ List.map_filter (\<lambda>v. as_Configer E (Value v)) configs)
        (w\<lparr>con := (con w)\<lparr>moduleConfigs := moduleConfigs (con w) ++ batch configs\<rparr>\<rparr>))"
proof (induction configs arbitrary: cfgs w)
  case Nil
  then show ?case by (simp add: batch_def map_filter_simps)
next
  case (Cons v rest)
  from Cons.prems obtain x where x: "as_Configer E (Value v) = Some x" by auto
  from Cons.prems have "list_all (\<lambda>v. as_Configer E (Value v) \<noteq> None) rest" by simp
  from Cons.IH [OF this] x show ?case
    by (simp add: map_filter_simps batch_Cons fun_upd_def)
qed

text \<open>
  Claim C1, as the code has it. \<^verbatim>\<open>SetModuleGlobalConfig\<close> writes every entry of the
  batch to the map before the provider sees any of them. When all values are
  Configers, the call returns whatever \<^verbatim>\<open>gocon.Load\<close> returns, an error included, and
  in every case the map holds the whole batch afterwards (the last value given for a key
  that occurs twice): \<^verbatim>\<open>GetGlobalConfig\<close> on each key of the batch returns its value.
\<close>

theorem SetModuleGlobalConfig_commits_before_validating:
  assumes "list_all (\<lambda>v. as_Configer E (Value v) \<noteq> None) configs"
  shows "SetModuleGlobalConfig E configs w =
           (map (\<lambda>v. Write ModuleConfigs (Key v)) configs @ [Call_Load],
            Returns (fst (Load E (List.map_filter (\<lambda>v. as_Configer E (Value v)) configs) (mem w)))
              (w\<lparr>con := (con w)\<lparr>moduleConfigs := moduleConfigs (con w) ++ batch configs\<rparr>,
                 mem := snd (Load E (List.map_filter (\<lambda>v. as_Configer E (Value v)) configs) (mem w))\<rparr>)) \<and>
         (\<forall>v \<in> set configs.
            \<exists>x. batch configs (Key v) = Some x \<and>
              snd (GetGlobalConfig (Key v) (world_of (snd (SetModuleGlobalConfig E configs w)))) =
                Returns x (world_of (snd (SetModuleGlobalConfig E configs w))))"
proof -
  let ?cfgs = "List.map_filter (\<lambda>v. as_Configer E (Value v)) configs"
  have eq: "SetModuleGlobalConfig E configs w =
      (map (\<lambda>v. Write ModuleConfigs (Key v)) configs @ [Call_Load],
       Returns (fst (Load E ?cfgs (mem w)))
         (w\<lparr>con := (con w)\<lparr>moduleConfigs := moduleConfigs (con w) ++ batch configs\<rparr>,
            mem := snd (Load E ?cfgs (mem w))\<rparr>))"
    using SetModuleGlobalConfig_loop_all [OF assms, of "[]" w]
    by (simp add: SetModuleGlobalConfig_def split: prod.splits)
  have "\<exists>x. batch configs (Key v) = Some x" if "v \<in> set configs" for v
  proof -
    from that have "Key v \<in> fst ` set (rev (map (\<lambda>v. (Key v, Value v)) configs))"
      by force
    then show ?thesis
      unfolding batch_def by (metis domIff dom_map_of_conv_image_fst not_Some_eq)
  qed
  then have "\<exists>x. batch configs (Key v) = Some x \<and>
      snd (GetGlobalConfig (Key v) (world_of (snd (SetModuleGlobalConfig E configs w)))) =
        Returns x (world_of (snd (SetModuleGlobalConfig E configs w)))"
    if "v \<in> set configs" for v
    using that by (fastforce simp: eq GetGlobalConfig_def map_add_def)
  with eq show ?thesis by blast
qed

text \<open>
  The statement with all-or-nothing in it fails: the key \<^verbatim>\<open>db\<close> is unbound, the
  provider rejects the batch, the call returns the provider's error, and
  \<^verbatim>\<open>GetGlobalConfig\<close> then returns the rejected value instead of panicking.
\<close>

theorem SetModuleGlobalConfig_not_atomic_counterexample:
  "snd (GetGlobalConfig ''db'' empty_world) = Panics (Panic_string ''db no module'') empty_world \<and>
   snd (SetModuleGlobalConfig demo_env [db_config] empty_world) =
     Returns (Some (Error ''invalid config''))
       (empty_world\<lparr>con := (con empty_world)\<lparr>moduleConfigs := [''db'' \<mapsto> Some Cfg]\<rparr>\<rparr>) \<and>
   snd (GetGlobalConfig ''db'' (world_of (snd (SetModuleGlobalConfig demo_env [db_config] empty_world)))) =
     Returns (Some Cfg)
       (empty_world\<lparr>con := (con empty_world)\<lparr>moduleConfigs := [''db'' \<mapsto> Some Cfg]\<rparr>\<rparr>)"
  by (simp add: SetModuleGlobalConfig_def GetGlobalConfig_def demo_defs model_defs)

theorem SetModuleGlobalConfig_commits_before_validating_witness:
  "list_all (\<lambda>v. as_Configer demo_env (Value v) \<noteq> None) [db_config, api_config] \<and>
   fst (SetModuleGlobalConfig demo_env [db_config, api_config] empty_world) =
     [Write ModuleConfigs ''db'', Write ModuleConfigs ''api'', Call_Load] \<and>
   (\<exists>w'. snd (SetModuleGlobalConfig demo_env [db_config, api_config] empty_world) =
      Returns (Some (Error ''invalid config'')) w' \<and>
      snd (GetGlobalConfig ''db'' w') = Returns (Some Cfg) w' \<and>
      snd (GetGlobalConfig ''api'' w') = Returns (Some Cfg) w')"
proof -
  have h: "list_all (\<lambda>v. as_Configer demo_env (Value v) \<noteq> None) [db_config, api_config]"
    by (simp add: demo_defs model_defs)
  from SetModuleGlobalConfig_commits_before_validating [OF h, of empty_world] h
  show ?thesis
    by (simp add: GetGlobalConfig_def demo_defs model_defs batch_def
          List.map_filter_simps)
qed

section \<open>The Init phase\<close>

lemma Init_prefix:
  "Init E pre w = (evs, Returns () w') \<Longrightarrow> Init E (pre @ rest) w = after evs (Init E rest w')"
proof (induction pre arbitrary: w evs)
  case Nil
  then show ?case by simp
next
  case (Cons name pre)
  show ?case
  proof (cases "as_Initable E (index (bindings (con w)) name)")
    case None
    with Cons.prems obtain ys where ys: "Init E pre w = (ys, Returns () w')"
      and evs: "evs = [Read Bindings name] @ ys"
      by (auto simp: after_eq_pair)
    from Cons.IH [OF ys] None evs show ?thesis by simp
  next
    case (Some f)
    obtain r w1 where inv: "invoke f w = (r, w1)" by (cases "invoke f w")
    show ?thesis
    proof (cases r)
      case Return_nil
      with Cons.prems Some inv obtain ys where ys: "Init E pre w1 = (ys, Returns () w')"
        and evs: "evs = [Read Bindings name, Call_Init name] @ ys"
        by (auto simp: after_eq_pair)
      from Cons.IH [OF ys] Some inv Return_nil evs show ?thesis by simp
    next
      case (Return_err e)
      with Cons.prems Some inv show ?thesis by simp
    next
      case (Call_panics p)
      with Cons.prems Some inv show ?thesis by simp
    qed
  qed
qed

text \<open>
  Claim C6. When the modules before the K-th have been initialised and the \<^verbatim>\<open>Init\<close>
  of the K-th returns an error, \<^verbatim>\<open>Init\<close> panics with that error: its events end with the
  call of the K-th module's \<^verbatim>\<open>Init\<close> whatever names follow, so no later module is
  touched, and the state it leaves is the one the earlier modules and the K-th call
  produced, with nothing undone.
\<close>

theorem Init_halts_at_error:
  assumes "Init E pre w = (evs, Returns () w')"
    and "as_Initable E (index (bindings (con w')) name) = Some f"
    and "invoke f w' = (Return_err err, w'')"
  shows "Init E (pre @ name # rest) w =
           (evs @ [Read Bindings name, Call_Init name], Panics (Panic_error err) w'')"
  using Init_prefix [OF assms(1), of "name # rest"] assms(2,3) by simp

theorem Init_halts_at_error_witness:
  "Init demo_env [''a''] demo_world = ([Read Bindings ''a'', Call_Init ''a''], Returns () initialised_world) \<and>
   Init demo_env [''a'', ''c'', ''b''] demo_world =
     ([Read Bindings ''a'', Call_Init ''a'', Read Bindings ''c'', Call_Init ''c''],
      Panics (Panic_error (Error ''init failed'')) initialised_world)"
proof -
  have h1: "Init demo_env [''a''] demo_world =
      ([Read Bindings ''a'', Call_Init ''a''], Returns () initialised_world)"
    by (simp add: demo_defs model_defs)
  have h2: "as_Initable demo_env (index (bindings (con initialised_world)) ''c'') =
      Some (\<lambda>(b, m). (Return_err (Error ''init failed''), b, m))"
    by (simp add: demo_defs model_defs)
  have h3: "invoke (\<lambda>(b, m). (Return_err (Error ''init failed''), b, m)) initialised_world =
      (Return_err (Error ''init failed''), initialised_world)"
    by (simp add: invoke_def)
  from Init_halts_at_error [OF h1 h2 h3, of "[''b'']"] h1 show ?thesis by simp
qed

text \<open>
  Claim C10. A name without a binding is skipped by \<^verbatim>\<open>Init\<close> in the same way as a
  name bound to an object without an \<^verbatim>\<open>Init\<close> method: the map is read, nothing is
  called, no panic is raised, and the loop goes on with the next name from the same
  state.
\<close>

theorem Init_skips_unbound:
  assumes "Init E pre w = (evs, Returns () w')"
    and "bindings (con w') name = None \<or>
         (bindings (con w') name = Some obj \<and> as_Initable E obj = None)"
  shows "Init E (pre @ name # rest) w = after (evs @ [Read Bindings name]) (Init E rest w')"
proof -
  from assms(2) have "as_Initable E (index (bindings (con w')) name) = None"
    by (auto simp: index_def as_Initable_def)
  with Init_prefix [OF assms(1), of "name # rest"] show ?thesis by simp
qed

theorem Init_skips_unbound_witness:
  "bindings (con initialised_world) ''zz'' = None \<and>
   Init demo_env [''a'', ''zz'', ''b''] demo_world =
     ([Read Bindings ''a'', Call_Init ''a'', Read Bindings ''zz'', Read Bindings ''b'',
       Call_Init ''b''],
      Returns () (initialised_world\<lparr>mem := 2\<rparr>))"
proof -
  have h1: "Init demo_env [''a''] demo_world =
      ([Read Bindings ''a'', Call_Init ''a''], Returns () initialised_world)"
    by (simp add: demo_defs model_defs)
  have h2: "bindings (con initialised_world) ''zz'' = None"
    by (simp add: demo_defs)
  have h3: "Init demo_env [''b''] initialised_world =
      ([Read Bindings ''b'', Call_Init ''b''], Returns () (initialised_world\<lparr>mem := 2\<rparr>))"
    by (simp add: demo_defs model_defs)
  from Init_skips_unbound [OF h1 disjI1 [OF h2], of "[''b'']"] h2 h3 show ?thesis by simp
qed

section \<open>The Start phase\<close>

lemma Start_loop_prefix:
  "list_all (\<lambda>m. is_Runnable E (index (bindings (con w)) m)) pre \<Longrightarrow>
   \<exists>evs. Start_loop E (pre @ rest) w = after evs (Start_loop E rest w) \<and>
         filter is_Go_Run evs = map Go_Run pre"
proof (induction pre)
  case Nil
  have "Start_loop E ([] @ rest) w = after [] (Start_loop E rest w) \<and>
        filter is_Go_Run [] = map Go_Run []"
    by simp
  then show ?case by blast
next
  case (Cons m pre)
  then obtain evs where evs: "Start_loop E (pre @ rest) w = after evs (Start_loop E rest w)"
    and runs: "filter is_Go_Run evs = map Go_Run pre"
    by auto
  from Cons.prems have "is_Runnable E (index (bindings (con w)) m)" by simp
  with evs runs have
    "Start_loop E ((m # pre) @ rest) w =
       after ([Log (starting m), Read Bindings m, Go_Run m, Log (started m)] @ evs)
         (Start_loop E rest w) \<and>
     filter is_Go_Run ([Log (starting m), Read Bindings m, Go_Run m, Log (started m)] @ evs) =
       map Go_Run (m # pre)"
    by simp
  then show ?case by blast
qed

lemma Start_at_not_Runnable:
  assumes "list_all (\<lambda>m. is_Runnable E (index (bindings (con w)) m)) pre"
    and "\<not> is_Runnable E (index (bindings (con w)) m)"
  shows "snd (Start E (pre @ m # rest) w) =
           Panics (Panic_string (not_runnable m)) (w\<lparr>watching := watching w @ stopSigs (con w)\<rparr>) \<and>
         filter is_Go_Run (fst (Start E (pre @ m # rest) w)) = map Go_Run pre"
proof -
  let ?w = "w\<lparr>watching := watching w @ stopSigs (con w)\<rparr>"
  from assms have "list_all (\<lambda>m. is_Runnable E (index (bindings (con ?w)) m)) pre"
    and no: "\<not> is_Runnable E (index (bindings (con ?w)) m)"
    by simp_all
  from Start_loop_prefix [OF this(1), of "m # rest"] obtain evs
    where evs: "Start_loop E (pre @ m # rest) ?w = after evs (Start_loop E (m # rest) ?w)"
      and runs: "filter is_Go_Run evs = map Go_Run pre"
    by blast
  have watch: "filter is_Go_Run (map Go_watch sigs) = []" for sigs
    by (induction sigs) simp_all
  from evs no runs show ?thesis
    by (simp add: Start_def watch)
qed

text \<open>
  Claim C2, as the code has it. \<^verbatim>\<open>Start\<close> tests each module when its turn comes, so
  it panics with the not-runnable message at the first module of the list that is not
  Runnable, and by then it has launched \<^verbatim>\<open>Run\<close> in a goroutine for exactly the
  modules before that one, in order, and for none at or after it.
\<close>

theorem Start_panics_at_first_not_Runnable:
  assumes "list_all (\<lambda>m. is_Runnable E (index (bindings (con w)) m)) pre"
    and "\<not> is_Runnable E (index (bindings (con w)) m)"
  shows "snd (Start E (pre @ m # rest) w) =
           Panics (Panic_string (not_runnable m)) (w\<lparr>watching := watching w @ stopSigs (con w)\<rparr>) \<and>
         filter is_Go_Run (fst (Start E (pre @ m # rest) w)) = map Go_Run pre"
  using Start_at_not_Runnable [OF assms] .

text \<open>
  The statement that no module of the list is launched fails: with a Runnable module
  \<^verbatim>\<open>a\<close> before a module \<^verbatim>\<open>p\<close> that has no method, \<^verbatim>\<open>Run\<close> of \<^verbatim>\<open>a\<close> is launched
  before the panic about \<^verbatim>\<open>p\<close>.
\<close>

theorem Start_launches_before_panic_counterexample:
  "filter is_Go_Run (fst (Start demo_env [''a'', ''p''] demo_world)) = [Go_Run ''a''] \<and>
   snd (Start demo_env [''a'', ''p''] demo_world) =
     Panics (Panic_string ''container: module [p] is not runnable, starting failed'') demo_world"
  by (simp add: Start_def demo_defs model_defs)

theorem Start_panics_at_first_not_Runnable_witness:
  "is_Runnable demo_env (index (bindings (con demo_world)) ''a'') \<and>
   \<not> is_Runnable demo_env (index (bindings (con demo_world)) ''p'') \<and>
   snd (Start demo_env [''a'', ''a'', ''p'', ''b''] demo_world) =
     Panics (Panic_string ''container: module [p] is not runnable, starting failed'') demo_world \<and>
   filter is_Go_Run (fst (Start demo_env [''a'', ''a'', ''p'', ''b''] demo_world)) =
     [Go_Run ''a'', Go_Run ''a'']"
proof -
  have h1: "list_all (\<lambda>m. is_Runnable demo_env (index (bindings (con demo_world)) m)) [''a'', ''a'']"
    by (simp add: demo_defs model_defs)
  have h2: "\<not> is_Runnable demo_env (index (bindings (con demo_world)) ''p'')"
    by (simp add: demo_defs model_defs)
  have same: "demo_world\<lparr>watching := watching demo_world @ stopSigs (con demo_world)\<rparr> = demo_world"
    by (simp add: demo_defs)
  from Start_panics_at_first_not_Runnable [OF h1 h2, of "[''b'']"] h1 h2 same
  show ?thesis by (simp add: not_runnable_def)
qed

text \<open>
  Claim C4, as the code has it. \<^verbatim>\<open>Runnable\<close> embeds \<^verbatim>\<open>Initable\<close>, so an object
  that has no \<^verbatim>\<open>Init\<close> method is not Runnable, whether it has \<^verbatim>\<open>Run\<close> or not, and
  \<^verbatim>\<open>Start\<close> panics on a name bound to it.
\<close>

theorem Run_without_Init_is_not_Runnable:
  assumes "bindings (con w) name = Some (Some x)" and "Init_of E x = None"
  shows "\<not> is_Runnable E (Some x) \<and>
         snd (Start E (name # rest) w) =
           Panics (Panic_string (not_runnable name))
             (w\<lparr>watching := watching w @ stopSigs (con w)\<rparr>)"
proof -
  from assms have no: "\<not> is_Runnable E (index (bindings (con w)) name)"
    by (simp add: index_def is_Runnable_def)
  from Start_at_not_Runnable [of E w "[]" name rest] no assms(2) show ?thesis
    by (simp add: is_Runnable_def)
qed

text \<open>
  The object the claim asks for does not pass: \<^verbatim>\<open>Run_only\<close> has \<^verbatim>\<open>Run\<close> and no
  \<^verbatim>\<open>Init\<close>, it is not Runnable, and \<^verbatim>\<open>Start\<close> rejects it.
\<close>

theorem Run_only_counterexample:
  "has_Run demo_env Run_only \<and> Init_of demo_env Run_only = None \<and>
   \<not> is_Runnable demo_env (Some Run_only) \<and>
   snd (Start demo_env [''r''] demo_world) =
     Panics (Panic_string ''container: module [r] is not runnable, starting failed'') demo_world"
  by (simp add: Start_def demo_defs model_defs)

theorem Run_without_Init_is_not_Runnable_witness:
  "bindings (con demo_world) ''r'' = Some (Some Run_only) \<and> has_Run demo_env Run_only \<and>
   Init_of demo_env Run_only = None \<and>
   snd (Start demo_env [''r'', ''a''] demo_world) =
     Panics (Panic_string ''container: module [r] is not runnable, starting failed'') demo_world"
proof -
  have h1: "bindings (con demo_world) ''r'' = Some (Some Run_only)"
    by (simp add: demo_defs)
  have h2: "Init_of demo_env Run_only = None"
    by (simp add: demo_defs)
  have h3: "has_Run demo_env Run_only"
    by (simp add: demo_defs)
  have same: "demo_world\<lparr>watching := watching demo_world @ stopSigs (con demo_world)\<rparr> = demo_world"
    by (simp add: demo_defs)
  from Run_without_Init_is_not_Runnable [OF h1 h2, of "[''a'']"] h1 h2 h3 same
  show ?thesis by (simp add: not_runnable_def)
qed

section \<open>The Shutdown phase\<close>

lemma Shutdown_loop_prefix:
  "Shutdown_loop E pre w = (evs, Returns () w') \<Longrightarrow>
   Shutdown_loop E (pre @ rest) w = after evs (Shutdown_loop E rest w')"
proof (induction pre arbitrary: w evs)
  case Nil
  then show ?case by simp
next
  case (Cons m pre)
  show ?case
  proof (cases "as_Stoppable E (index (bindings (con w)) m)")
    case None
    with Cons.prems show ?thesis by simp
  next
    case (Some f)
    obtain r w1 where inv: "invoke f w = (r, w1)" by (cases "invoke f w")
    show ?thesis
    proof (cases r)
      case Return_nil
      with Cons.prems Some inv obtain ys where ys: "Shutdown_loop E pre w1 = (ys, Returns () w')"
        and evs: "evs = [Log (stopping m), Read Bindings m, Call_Stop m, Log (stopped_line m)] @ ys"
        by (auto simp: after_eq_pair)
      from Cons.IH [OF ys] Some inv Return_nil evs show ?thesis by simp
    next
      case (Return_err e)
      with Cons.prems Some inv obtain ys where ys: "Shutdown_loop E pre w1 = (ys, Returns () w')"
        and evs: "evs = [Log (stopping m), Read Bindings m, Call_Stop m, Log (message e),
                         Log (stopped_line m)] @ ys"
        by (auto simp: after_eq_pair)
      from Cons.IH [OF ys] Some inv Return_err evs show ?thesis by simp
    next
      case (Call_panics p)
      with Cons.prems Some inv show ?thesis by simp
    qed
  qed
qed

lemma Shutdown_loop_never_blocks: "snd (Shutdown_loop E ms w) \<noteq> Blocks s"
  by (induction ms arbitrary: w)
     (auto split: option.splits prod.splits call_result.splits)

lemma Shutdown_loop_stops:
  "\<not> panicked (snd (Shutdown_loop E ms w)) \<Longrightarrow>
   filter is_Call_Stop (fst (Shutdown_loop E ms w)) = map Call_Stop ms"
  by (induction ms arbitrary: w)
     (auto split: option.splits prod.splits call_result.splits)

lemma send_stopped_cases:
  "(\<exists>r s. send_stopped w = ([Send r], Returns () s)) \<or> (\<exists>r s. send_stopped w = ([Send r], Blocks s))"
  by (cases "chan_send (stopped (con w))")
     (auto simp: send_stopped_def split: send_result.splits)

lemma Shutdown_after_loop:
  "Shutdown E ms w =
     (if panicked (snd (Shutdown_loop E ms w)) then Shutdown_loop E ms w
      else after (fst (Shutdown_loop E ms w))
             (send_stopped (world_of (snd (Shutdown_loop E ms w)))))"
proof (cases "Shutdown_loop E ms w")
  case (Pair evs out)
  then show ?thesis
    using Shutdown_loop_never_blocks [of E ms w]
    by (cases out) (auto simp: Shutdown_def)
qed

lemma panicked_Shutdown:
  "panicked (snd (Shutdown E ms w)) = panicked (snd (Shutdown_loop E ms w))"
  using send_stopped_cases [of "world_of (snd (Shutdown_loop E ms w))"]
  by (auto simp: Shutdown_after_loop)

lemma stops_Shutdown:
  "filter is_Call_Stop (fst (Shutdown E ms w)) = filter is_Call_Stop (fst (Shutdown_loop E ms w))"
  using send_stopped_cases [of "world_of (snd (Shutdown_loop E ms w))"]
  by (auto simp: Shutdown_after_loop)

lemma Shutdown_prefix:
  assumes "Shutdown_loop E pre w = (evs, Returns () w')"
  shows "Shutdown E (pre @ rest) w = after evs (Shutdown E rest w')"
proof -
  obtain ys out where r: "Shutdown_loop E rest w' = (ys, out)" by (cases "Shutdown_loop E rest w'")
  with Shutdown_loop_prefix [OF assms, of rest] show ?thesis
    by (cases out) (simp_all add: Shutdown_def)
qed

text \<open>
  Claim C7. When the \<^verbatim>\<open>Stop\<close> of a module returns an error, \<^verbatim>\<open>Shutdown\<close> logs the
  error and goes on exactly as a call on the remaining names would from the state that
  \<^verbatim>\<open>Stop\<close> left; unless a panic is raised later (a module that is not Stoppable, or a
  \<^verbatim>\<open>Stop\<close> that panics), the \<^verbatim>\<open>Stop\<close> calls are those of the whole list, in the
  caller's order.
\<close>

theorem Shutdown_continues_after_Stop_error:
  assumes "Shutdown_loop E pre w = (evs, Returns () w')"
    and "as_Stoppable E (index (bindings (con w')) m) = Some f"
    and "invoke f w' = (Return_err err, w'')"
  shows "Shutdown E (pre @ m # rest) w =
           after (evs @ [Log (stopping m), Read Bindings m, Call_Stop m, Log (message err),
                         Log (stopped_line m)])
             (Shutdown E rest w'') \<and>
         (\<not> panicked (snd (Shutdown E rest w'')) \<longrightarrow>
            filter is_Call_Stop (fst (Shutdown E (pre @ m # rest) w)) =
              map Call_Stop (pre @ m # rest))"
proof -
  have one: "Shutdown_loop E [m] w' =
      ([Log (stopping m), Read Bindings m, Call_Stop m, Log (message err), Log (stopped_line m)],
       Returns () w'')"
    using assms(2,3) by simp
  have upto: "Shutdown_loop E (pre @ [m]) w =
      (evs @ [Log (stopping m), Read Bindings m, Call_Stop m, Log (message err),
              Log (stopped_line m)], Returns () w'')"
    using Shutdown_loop_prefix [OF assms(1), of "[m]"] one by simp
  have eq: "Shutdown E (pre @ m # rest) w =
      after (evs @ [Log (stopping m), Read Bindings m, Call_Stop m, Log (message err),
                    Log (stopped_line m)]) (Shutdown E rest w'')"
    using Shutdown_prefix [OF upto, of rest] by simp
  have "filter is_Call_Stop (fst (Shutdown E (pre @ m # rest) w)) = map Call_Stop (pre @ m # rest)"
    if "\<not> panicked (snd (Shutdown E rest w''))"
  proof -
    from that eq have "\<not> panicked (snd (Shutdown E (pre @ m # rest) w))" by simp
    then have "\<not> panicked (snd (Shutdown_loop E (pre @ m # rest) w))"
      by (simp add: panicked_Shutdown)
    from Shutdown_loop_stops [OF this] show ?thesis by (simp add: stops_Shutdown)
  qed
  with eq show ?thesis by blast
qed

theorem Shutdown_continues_after_Stop_error_witness:
  "filter is_Call_Stop (fst (Shutdown demo_env [''a'', ''b'', ''a''] demo_world)) =
     [Call_Stop ''a'', Call_Stop ''b'', Call_Stop ''a''] \<and>
   filter is_Call_Stop (fst (Shutdown demo_env [''a''] demo_world)) = [Call_Stop ''a''] \<and>
   \<not> panicked (snd (Shutdown demo_env [''a''] demo_world))"
proof -
  have h1: "Shutdown_loop demo_env [''a''] demo_world =
      ([Log (stopping ''a''), Read Bindings ''a'', Call_Stop ''a'', Log (stopped_line ''a'')],
       Returns () demo_world)"
    by (simp add: demo_defs model_defs)
  have h2: "as_Stoppable demo_env (index (bindings (con demo_world)) ''b'') =
      Some (\<lambda>(b, m). (Return_err (Error ''stop failed''), b, m))"
    by (simp add: demo_defs model_defs)
  have h3: "invoke (\<lambda>(b, m). (Return_err (Error ''stop failed''), b, m)) demo_world =
      (Return_err (Error ''stop failed''), demo_world)"
    by (simp add: invoke_def)
  have h4: "\<not> panicked (snd (Shutdown demo_env [''a''] demo_world))"
    unfolding Shutdown_def h1 by (simp add: send_stopped_def chan_send_def demo_defs)
  have h5: "filter is_Call_Stop (fst (Shutdown demo_env [''a''] demo_world)) = [Call_Stop ''a'']"
    unfolding Shutdown_def h1 by (simp add: send_stopped_def chan_send_def demo_defs)
  from Shutdown_continues_after_Stop_error [OF h1 h2 h3, of "[''a'']"] h4 h5 show ?thesis by simp
qed

text \<open>
  Claim C9. A name without a binding makes \<^verbatim>\<open>Start\<close> and \<^verbatim>\<open>Shutdown\<close> panic with
  the not-runnable and not-stoppable messages, not with the no-module message of
  \<^verbatim>\<open>Resolve\<close>: the same panics as for a name bound to an object that lacks the role,
  wherever in the list the name stands.
\<close>

theorem unbound_name_lacks_capability:
  assumes "bindings (con w) name = None \<or>
           (bindings (con w) name = Some obj \<and> \<not> is_Runnable E obj \<and> as_Stoppable E obj = None)"
    and "list_all (\<lambda>m. is_Runnable E (index (bindings (con w)) m)) pre"
    and "Shutdown_loop E pre' w0 = (evs, Returns () w)"
  shows "snd (Start E (pre @ name # rest) w) =
           Panics (Panic_string (not_runnable name))
             (w\<lparr>watching := watching w @ stopSigs (con w)\<rparr>) \<and>
         Shutdown E (pre' @ name # rest) w0 =
           (evs @ [Log (stopping name), Read Bindings name],
            Panics (Panic_string (not_stoppable name)) w)"
proof -
  from assms(1) have r: "\<not> is_Runnable E (index (bindings (con w)) name)"
    and s: "as_Stoppable E (index (bindings (con w)) name) = None"
    by (auto simp: index_def is_Runnable_def as_Stoppable_def)
  from s have "Shutdown E (name # rest) w =
      ([Log (stopping name), Read Bindings name], Panics (Panic_string (not_stoppable name)) w)"
    by (simp add: Shutdown_def)
  with Shutdown_prefix [OF assms(3), of "name # rest"]
  have "Shutdown E (pre' @ name # rest) w0 =
      (evs @ [Log (stopping name), Read Bindings name],
       Panics (Panic_string (not_stoppable name)) w)"
    by simp
  with Start_at_not_Runnable [OF assms(2) r, of rest] show ?thesis by simp
qed

theorem unbound_name_lacks_capability_witness:
  "bindings (con demo_world) ''zz'' = None \<and>
   snd (Start demo_env [''a'', ''zz'', ''b''] demo_world) =
     Panics (Panic_string ''container: module [zz] is not runnable, starting failed'') demo_world \<and>
   snd (Shutdown demo_env [''a'', ''zz'', ''b''] demo_world) =
     Panics (Panic_string ''container: module [zz] is not stoppable, stopping failed'') demo_world"
proof -
  have h1: "bindings (con demo_world) ''zz'' = None"
    by (simp add: demo_defs)
  have h2: "list_all (\<lambda>m. is_Runnable demo_env (index (bindings (con demo_world)) m)) [''a'']"
    by (simp add: demo_defs model_defs)
  have h3: "Shutdown_loop demo_env [''a''] demo_world =
      ([Log (stopping ''a''), Read Bindings ''a'', Call_Stop ''a'', Log (stopped_line ''a'')],
       Returns () demo_world)"
    by (simp add: demo_defs model_defs)
  have same: "demo_world\<lparr>watching := watching demo_world @ stopSigs (con demo_world)\<rparr> = demo_world"
    by (simp add: demo_defs)
  from unbound_name_lacks_capability [OF disjI1 [OF h1] h2 h3, of "[''b'']"] h1 same
  show ?thesis by (simp add: not_runnable_def not_stoppable_def)
qed

section \<open>The stopped channel\<close>

lemma conserved_append:
  "conserved ch evs ch' \<Longrightarrow> conserved ch' evs' ch'' \<Longrightarrow> conserved ch (evs @ evs') ch''"
  by (auto simp: conserved_def)

lemma conserved_silent:
  "filter is_send evs = [] \<Longrightarrow> filter is_recv evs = [] \<Longrightarrow> filter is_delivery evs = [] \<Longrightarrow>
   conserved ch evs ch"
  by (simp add: conserved_def)

lemma conserved_send_stopped:
  "conserved (stopped (con w)) (fst (send_stopped w))
     (stopped (con (world_of (snd (send_stopped w)))))"
  by (auto simp: conserved_def chan_ok_def send_stopped_def chan_send_def)

lemma Start_loop_world: "world_of (snd (Start_loop E ms w)) = w"
  by (induction ms) simp_all

lemma Start_loop_never_blocks: "snd (Start_loop E ms w) \<noteq> Blocks s"
  by (induction ms) simp_all

lemma Start_loop_silent:
  "filter is_send (fst (Start_loop E ms w)) = [] \<and>
   filter is_recv (fst (Start_loop E ms w)) = [] \<and>
   filter is_delivery (fst (Start_loop E ms w)) = []"
  by (induction ms) simp_all

lemma watch_silent:
  "filter is_send (map Go_watch sigs) = [] \<and> filter is_recv (map Go_watch sigs) = [] \<and>
   filter is_delivery (map Go_watch sigs) = []"
  by (induction sigs) simp_all

lemma invoke_stopped: "stopped (con (snd (invoke f w))) = stopped (con w)"
  by (simp add: invoke_def split: prod.splits)

lemma Shutdown_loop_silent:
  "filter is_send (fst (Shutdown_loop E ms w)) = [] \<and>
   filter is_recv (fst (Shutdown_loop E ms w)) = [] \<and>
   filter is_delivery (fst (Shutdown_loop E ms w)) = []"
  by (induction ms arbitrary: w)
     (auto split: option.splits prod.splits call_result.splits)

lemma Shutdown_loop_stopped:
  "stopped (con (world_of (snd (Shutdown_loop E ms w)))) = stopped (con w)"
proof (induction ms arbitrary: w)
  case Nil
  show ?case by simp
next
  case (Cons m ms)
  show ?case
  proof (cases "as_Stoppable E (index (bindings (con w)) m)")
    case None
    then show ?thesis by simp
  next
    case (Some f)
    obtain r w1 where inv: "invoke f w = (r, w1)" by (cases "invoke f w")
    with invoke_stopped [of f w] have "stopped (con w1) = stopped (con w)" by simp
    with Cons.IH [of w1] Some inv show ?thesis by (cases r) simp_all
  qed
qed

lemma conserved_Start:
  "conserved (stopped (con w)) (fst (Start E ms w)) (stopped (con (world_of (snd (Start E ms w)))))"
proof -
  let ?w = "w\<lparr>watching := watching w @ stopSigs (con w)\<rparr>"
  obtain evs out where l: "Start_loop E ms ?w = (evs, out)" by (cases "Start_loop E ms ?w")
  from Start_loop_silent [of E ms ?w] l
  have silent: "filter is_send evs = []" "filter is_recv evs = []" "filter is_delivery evs = []"
    by simp_all
  from Start_loop_world [of E ms ?w] l have w: "world_of out = ?w" by simp
  from Start_loop_never_blocks [of E ms ?w] l have nb: "\<And>s. out \<noteq> Blocks s" by simp
  show ?thesis
  proof (cases out)
    case (Returns u w')
    with w have "w' = ?w" by simp
    with l Returns silent show ?thesis
      by (auto simp: Start_def conserved_def watch_silent chan_recv_def chan_ok_def)
  next
    case (Panics p w')
    with w have "w' = ?w" by simp
    with l Panics silent show ?thesis
      by (simp add: Start_def conserved_def watch_silent)
  next
    case (Blocks s)
    with nb show ?thesis by blast
  qed
qed

lemma conserved_Shutdown:
  "conserved (stopped (con w)) (fst (Shutdown E ms w))
     (stopped (con (world_of (snd (Shutdown E ms w)))))"
proof (cases "panicked (snd (Shutdown_loop E ms w))")
  case True
  with Shutdown_loop_silent [of E ms w] Shutdown_loop_stopped [of E ms w] show ?thesis
    by (simp add: Shutdown_after_loop conserved_silent)
next
  case False
  let ?w = "world_of (snd (Shutdown_loop E ms w))"
  have "conserved (stopped (con w)) (fst (Shutdown_loop E ms w)) (stopped (con ?w))"
    using Shutdown_loop_silent [of E ms w] Shutdown_loop_stopped [of E ms w]
    by (simp add: conserved_silent)
  from conserved_append [OF this conserved_send_stopped [of ?w]] False show ?thesis
    by (simp add: Shutdown_after_loop)
qed

lemma conserved_watcher:
  "conserved (stopped (con w)) (fst (watcher ch w)) (stopped (con (world_of (snd (watcher ch w)))))"
  using conserved_send_stopped [of "w\<lparr>watching := remove1 ch (watching w)\<rparr>"]
  by (simp add: watcher_def conserved_silent)

lemma conserved_step:
  "conserved (stopped (con w)) (fst (step E a w)) (stopped (con (world_of (snd (step E a w)))))"
  by (cases a) (simp_all add: conserved_Start conserved_Shutdown conserved_watcher)

lemma conserved_run:
  "conserved (stopped (con w)) (fst (run E acts w)) (stopped (con (world_of (snd (run E acts w)))))"
proof (induction acts arbitrary: w)
  case Nil
  show ?case by (simp add: conserved_silent)
next
  case (Cons a acts)
  obtain evs out where s: "step E a w = (evs, out)" by (cases "step E a w")
  from conserved_step [of w E a] s
  have one: "conserved (stopped (con w)) evs (stopped (con (world_of out)))" by simp
  show ?case
  proof (cases out)
    case (Panics p w')
    with s one show ?thesis by simp
  next
    case (Returns u w')
    with one have "conserved (stopped (con w)) evs (stopped (con w'))" by simp
    from conserved_append [OF this Cons.IH [of w']] s Returns show ?thesis by simp
  next
    case (Blocks w')
    with one have "conserved (stopped (con w)) evs (stopped (con w'))" by simp
    from conserved_append [OF this Cons.IH [of w']] s Blocks show ?thesis by simp
  qed
qed

text \<open>
  Claim C3, as the code has it. In every execution that begins with the channel
  empty, with \<open>S\<close> sends on \<^verbatim>\<open>stopped\<close> (stop signal goroutines going on and calls of
  \<^verbatim>\<open>Shutdown\<close> reaching their last statement) and \<open>R\<close> calls of \<^verbatim>\<open>Start\<close> reaching
  their receive, \<open>min S R\<close> values are delivered: one waiting \<^verbatim>\<open>Start\<close> is woken
  exactly once, by the first send. The channel is a buffer of one slot and no latch:
  one send more than there are receives stays in the buffer, and every sender beyond
  that is parked in its send. The differences below are differences of natural numbers,
  0 where the second number is the larger.
\<close>

theorem stopped_is_a_one_slot_buffer:
  assumes "stopped (con w) = \<lparr>buffered = 0, recvq = 0, sendq = 0\<rparr>"
  shows "length (filter is_delivery (fst (run E acts w))) =
           min (length (filter is_send (fst (run E acts w))))
               (length (filter is_recv (fst (run E acts w)))) \<and>
         buffered (stopped (con (world_of (snd (run E acts w))))) =
           min (length (filter is_send (fst (run E acts w))) -
                length (filter is_recv (fst (run E acts w)))) 1 \<and>
         sendq (stopped (con (world_of (snd (run E acts w))))) =
           length (filter is_send (fst (run E acts w))) -
           length (filter is_recv (fst (run E acts w))) - 1 \<and>
         recvq (stopped (con (world_of (snd (run E acts w))))) =
           length (filter is_recv (fst (run E acts w))) -
           length (filter is_send (fst (run E acts w)))"
proof -
  from assms have "chan_ok (stopped (con w))" by (simp add: chan_ok_def)
  with conserved_run [of w E acts] assms show ?thesis
    unfolding conserved_def chan_ok_def by (simp add: min_def) arith
qed

text \<open>
  The statement that later sends have no effect fails. After \<^verbatim>\<open>Start\<close> has been
  woken by a first call of \<^verbatim>\<open>Shutdown\<close>, a second call leaves a value in the buffer and
  a third call parks in its send and does not return; and when two stop signals have
  fired, the first call of \<^verbatim>\<open>Shutdown\<close> already parks.
\<close>

theorem stopped_is_not_a_latch_counterexample:
  "fst (run demo_env [Do_Start [], Do_Shutdown [], Do_Shutdown [], Do_Shutdown []] empty_world) =
     [Recv Receiver_parks, Send To_receiver, Send To_buffer, Send Sender_parks] \<and>
   stopped (con delivered_world) = \<lparr>buffered = 0, recvq = 0, sendq = 0\<rparr> \<and>
   Shutdown demo_env [] delivered_world =
     ([Send To_buffer],
      Returns () (delivered_world\<lparr>con := (con delivered_world)
         \<lparr>stopped := \<lparr>buffered = 1, recvq = 0, sendq = 0\<rparr>\<rparr>\<rparr>)) \<and>
   Shutdown demo_env []
       (delivered_world\<lparr>con := (con delivered_world)
          \<lparr>stopped := \<lparr>buffered = 1, recvq = 0, sendq = 0\<rparr>\<rparr>\<rparr>) =
     ([Send Sender_parks],
      Blocks (delivered_world\<lparr>con := (con delivered_world)
         \<lparr>stopped := \<lparr>buffered = 1, recvq = 0, sendq = 1\<rparr>\<rparr>\<rparr>)) \<and>
   fst (run demo_env [Do_Start [], Do_signal 1, Do_signal 2, Do_Shutdown []] signal_world) =
     [Go_watch 1, Go_watch 2, Recv Receiver_parks, Send To_receiver, Send To_buffer,
      Send Sender_parks]"
  by (simp add: Start_def Shutdown_def watcher_def demo_defs model_defs)

theorem stopped_is_a_one_slot_buffer_witness:
  "stopped (con empty_world) = \<lparr>buffered = 0, recvq = 0, sendq = 0\<rparr> \<and>
   length (filter is_send (fst (run demo_env [Do_Start [], Do_Shutdown [], Do_Shutdown [], Do_Shutdown []] empty_world))) = 3 \<and>
   length (filter is_recv (fst (run demo_env [Do_Start [], Do_Shutdown [], Do_Shutdown [], Do_Shutdown []] empty_world))) = 1 \<and>
   length (filter is_delivery (fst (run demo_env [Do_Start [], Do_Shutdown [], Do_Shutdown [], Do_Shutdown []] empty_world))) = 1 \<and>
   buffered (stopped (con (world_of (snd (run demo_env [Do_Start [], Do_Shutdown [], Do_Shutdown [], Do_Shutdown []] empty_world))))) = 1 \<and>
   sendq (stopped (con (world_of (snd (run demo_env [Do_Start [], Do_Shutdown [], Do_Shutdown [], Do_Shutdown []] empty_world))))) = 1"
proof -
  have h: "stopped (con empty_world) = \<lparr>buffered = 0, recvq = 0, sendq = 0\<rparr>"
    by (simp add: demo_defs)
  have r: "run demo_env [Do_Start [], Do_Shutdown [], Do_Shutdown [], Do_Shutdown []] empty_world =
      ([Recv Receiver_parks, Send To_receiver, Send To_buffer, Send Sender_parks],
       Returns () (empty_world\<lparr>con := (con empty_world)
          \<lparr>stopped := \<lparr>buffered = 1, recvq = 0, sendq = 1\<rparr>\<rparr>\<rparr>))"
    by (simp add: Start_def Shutdown_def demo_defs model_defs)
  note t = stopped_is_a_one_slot_buffer
             [OF h, of demo_env "[Do_Start [], Do_Shutdown [], Do_Shutdown [], Do_Shutdown []]",
              unfolded r]
  from t h show ?thesis unfolding r by simp
qed

end
